theory Spec2Isabelle
  imports Main
begin

section \<open>Data model (types.ts)\<close>

text \<open>
  Strings are character lists, \<open>number\<close> timestamps (\<open>Date.now()\<close>) are naturals, an
  optional field \<open>f?: T\<close> is a \<open>T option\<close> (\<open>None\<close> is \<open>undefined\<close>), and the
  \<open>Record<string, DismissalRecord>\<close> of dismissed flags is a partial map.
\<close>

record PatientDetails =
  pd_id :: string
  pd_name :: "string option"
  pd_age :: "string option"
  pd_location :: "string option"
  pd_encounterDate :: "string option"

datatype NoteType = TextNote | ImageNote | AudioNote

datatype NoteStatus = Processing | Ready | Failed

record Note =
  note_id :: string
  note_type :: NoteType
  note_content :: string
  note_originalFile :: "string option"
  note_mimeType :: "string option"
  note_label :: string
  note_timestamp :: nat
  note_status :: NoteStatus
  note_confidence :: "nat option"

datatype Severity = HIGH | MEDIUM | LOW

record Conflict =
  conflict_id :: string
  conflict_description :: string
  conflict_severity :: Severity
  source_ids :: "string list"
  reasoning :: string
  why_it_matters :: string
  conflict_confidence :: Severity
  excerpts :: "(string \<times> string) list"
  resolved_text :: "string option"

text \<open>
  The analysis result is produced by the external analysis service and stored as it is;
  of its lists only the conflicts are inspected by the code modelled here, the other
  parts (missing information, timeline, statistics) are carried as the opaque payload
  \<open>result_rest\<close>.
\<close>

record AnalysisResult =
  critical_conflicts :: "Conflict list"
  patient_trajectory_summary :: string
  analysis_confidence :: Severity
  result_rest :: string

datatype DismissalReason =
  NOT_RELEVANT | FALSE_POSITIVE | ADDRESSED | DOC_ERROR | RESOLVED | OTHER

record DismissalRecord =
  conflictId :: string
  reason :: DismissalReason
  customReason :: "string option"
  dismissal_note :: "string option"
  resolutionSourceId :: "string option"
  dismissal_timestamp :: nat

record CaseHistoryEvent =
  event_timestamp :: nat
  action :: string
  details :: "string option"

text \<open>
  \<open>Case.history\<close> is declared non-optional, but \<open>sanitizeCase\<close> and \<open>loadCase\<close> both
  read it as \<open>c.history || []\<close>, so records written before the field existed are
  admitted: the field is optional in the model.
\<close>

record Case =
  case_id :: string
  case_name :: string
  case_patientDetails :: PatientDetails
  case_notes :: "Note list"
  case_result :: "AnalysisResult option"
  case_dismissedFlags :: "string \<rightharpoonup> DismissalRecord"
  case_timestamp :: nat
  case_history :: "CaseHistoryEvent list option"

section \<open>Sanitizer (securityService.ts)\<close>

text \<open>
  \<open>String.prototype.replace\<close> with a global single-character pattern: every occurrence
  of the character is replaced by the replacement text, left to right.
\<close>

definition replaceAll :: "char \<Rightarrow> string \<Rightarrow> string \<Rightarrow> string" where
  "replaceAll c r s = concat (map (\<lambda>x. if x = c then r else [x]) s)"

text \<open>The five passes of \<open>sanitizeInput\<close>, in the order of the source.\<close>

definition sanitizeInput :: "string \<Rightarrow> string" where
  "sanitizeInput input =
     (if input = [] then []
      else replaceAll (CHR 0x27) ''&#039;''
            (replaceAll (CHR 0x22) ''&quot;''
              (replaceAll (CHR ''>'') ''&gt;''
                (replaceAll (CHR ''<'') ''&lt;''
                  (replaceAll (CHR ''&'') ''&amp;'' input)))))"

text \<open>The characters the sanitizer rewrites.\<close>

definition special_chars :: "char set" where
  "special_chars = {CHR ''&'', CHR ''<'', CHR ''>'', CHR 0x22, CHR 0x27}"

section \<open>Case store (storageService.ts)\<close>

text \<open>
  The medium holds one item under \<open>STORAGE_KEY\<close>: nothing, a text that \<open>JSON.parse\<close>
  rejects (the empty text included, which \<open>loadCases\<close> treats alike), or the
  serialization of a list of cases. \<open>JSON.stringify\<close>/\<open>JSON.parse\<close> are taken to round
  trip exactly on the data model above.
\<close>

datatype stored = Unparseable | Parsed "Case list"

type_synonym localStorage = "stored option"

datatype storage_error = SaveFailed | UpdateFailed | WriteRejected

text \<open>
  \<open>localStorage.setItem\<close> throws when the medium refuses the write (quota, unavailable);
  whether it does is an input of the model. A refused write leaves the item as it was.
\<close>

definition setItem :: "bool \<Rightarrow> Case list \<Rightarrow> localStorage \<Rightarrow> localStorage option" where
  "setItem accepted v ls = (if accepted then Some (Some (Parsed v)) else None)"

definition loadCases :: "localStorage \<Rightarrow> Case list" where
  "loadCases ls = (case ls of None \<Rightarrow> [] | Some Unparseable \<Rightarrow> [] | Some (Parsed cs) \<Rightarrow> cs)"

text \<open>\<open>x || ''\<close> on an optional string.\<close>

definition or_empty :: "string option \<Rightarrow> string" where
  "or_empty x = (case x of None \<Rightarrow> [] | Some s \<Rightarrow> s)"

definition sanitizeNote :: "Note \<Rightarrow> Note" where
  "sanitizeNote n =
     n\<lparr>note_content := sanitizeInput (note_content n), note_label := sanitizeInput (note_label n)\<rparr>"

definition sanitizeCase :: "Case \<Rightarrow> Case" where
  "sanitizeCase c =
     c\<lparr>case_name := sanitizeInput (case_name c),
       case_patientDetails :=
         \<lparr>pd_id = sanitizeInput (pd_id (case_patientDetails c)),
          pd_name = Some (sanitizeInput (or_empty (pd_name (case_patientDetails c)))),
          pd_age = Some (sanitizeInput (or_empty (pd_age (case_patientDetails c)))),
          pd_location = Some (sanitizeInput (or_empty (pd_location (case_patientDetails c)))),
          pd_encounterDate =
            Some (sanitizeInput (or_empty (pd_encounterDate (case_patientDetails c))))\<rparr>,
       case_notes := map sanitizeNote (case_notes c),
       case_result := case_result c,
       case_dismissedFlags := case_dismissedFlags c,
       case_history := Some (case case_history c of None \<Rightarrow> [] | Some h \<Rightarrow> h)\<rparr>"

definition saveCase ::
  "bool \<Rightarrow> Case \<Rightarrow> localStorage \<Rightarrow> storage_error + (Case list \<times> localStorage)" where
  "saveCase accepted newCase ls =
     (let sanitizedCase = sanitizeCase newCase;
          existing = loadCases ls;
          updated = sanitizedCase # existing
      in case setItem accepted updated ls of
           None \<Rightarrow> Inl SaveFailed
         | Some ls' \<Rightarrow> Inr (updated, ls'))"

text \<open>\<open>Array.prototype.findIndex\<close>; \<open>None\<close> is the source's \<open>-1\<close>.\<close>

fun findIndex :: "('a \<Rightarrow> bool) \<Rightarrow> 'a list \<Rightarrow> nat option" where
  "findIndex P [] = None"
| "findIndex P (x # xs) = (if P x then Some 0 else map_option Suc (findIndex P xs))"

definition updateCase ::
  "bool \<Rightarrow> Case \<Rightarrow> localStorage \<Rightarrow> storage_error + (Case list \<times> localStorage)" where
  "updateCase accepted updatedCase ls =
     (let sanitizedCase = sanitizeCase updatedCase;
          existing = loadCases ls;
          newCasesList =
            (case findIndex (\<lambda>c. case_id c = case_id updatedCase) existing of
               Some index \<Rightarrow> existing[index := sanitizedCase]
             | None \<Rightarrow> sanitizedCase # existing)
      in case setItem accepted newCasesList ls of
           None \<Rightarrow> Inl UpdateFailed
         | Some ls' \<Rightarrow> Inr (newCasesList, ls'))"

text \<open>\<open>deleteCase\<close> has no \<open>try\<close>: a refused write escapes as it is.\<close>

definition deleteCase ::
  "bool \<Rightarrow> string \<Rightarrow> localStorage \<Rightarrow> storage_error + (Case list \<times> localStorage)" where
  "deleteCase accepted i ls =
     (let existing = loadCases ls;
          updated = filter (\<lambda>c. case_id c \<noteq> i) existing
      in case setItem accepted updated ls of
           None \<Rightarrow> Inl WriteRejected
         | Some ls' \<Rightarrow> Inr (updated, ls'))"

section \<open>Application state and handlers (App.tsx, AnalysisResults.tsx)\<close>

text \<open>
  The component's \<open>useState\<close> cells that the handlers below read or write, as one
  record; each handler takes the rendered state and returns the next one. Cells that
  only drive presentation (toast, spinners, tabs, validation marks) are left out.
  \<open>Date.now()\<close>, \<open>crypto.randomUUID()\<close>, \<open>window.confirm\<close> and the outcome of a
  write to the medium are inputs of the handlers.
  \<open>editSourceContent\<close> and the entries of \<open>historyStack\<close> are optional strings: an
  index outside the stack reads \<open>undefined\<close> in the source, here \<open>None\<close>.
\<close>

record AppState =
  patientDetails :: PatientDetails
  "notes" :: "Note list"
  result :: "AnalysisResult option"
  dismissedFlags :: "string \<rightharpoonup> DismissalRecord"
  hasUnsavedChanges :: bool
  cases :: "Case list"
  currentCaseId :: "string option"
  currentCaseHistory :: "CaseHistoryEvent list"
  viewSourceId :: "string option"
  isEditingSource :: bool
  editSourceContent :: "string option"
  historyStack :: "string option list"
  historyStep :: nat

definition initialState :: AppState where
  "initialState =
     \<lparr>patientDetails =
        \<lparr>pd_id = [], pd_name = Some [], pd_age = Some [], pd_location = Some [],
         pd_encounterDate = Some []\<rparr>,
      notes = [], result = None, dismissedFlags = Map.empty, hasUnsavedChanges = False,
      cases = [], currentCaseId = None, currentCaseHistory = [], viewSourceId = None,
      isEditingSource = False, editSourceContent = Some [], historyStack = [],
      historyStep = 0\<rparr>"

definition MAX_NOTES :: nat where
  "MAX_NOTES = 10"

text \<open>A string or \<open>null\<close> used as a condition: \<open>null\<close> and the empty string are falsy.\<close>

definition truthy :: "string option \<Rightarrow> bool" where
  "truthy x = (case x of None \<Rightarrow> False | Some s \<Rightarrow> s \<noteq> [])"

text \<open>\<open>x || d\<close> on an optional string.\<close>

definition or_else :: "string option \<Rightarrow> string \<Rightarrow> string" where
  "or_else x d = (case x of None \<Rightarrow> d | Some s \<Rightarrow> if s = [] then d else s)"

subsection \<open>Audit log\<close>

definition logHistory :: "nat \<Rightarrow> string \<Rightarrow> string option \<Rightarrow> AppState \<Rightarrow> AppState" where
  "logHistory now a d st =
     st\<lparr>currentCaseHistory :=
          \<lparr>event_timestamp = now, action = a, details = d\<rparr> # currentCaseHistory st\<rparr>"

subsection \<open>Notes\<close>

fun type_text :: "NoteType \<Rightarrow> string" where
  "type_text TextNote = ''text''"
| "type_text ImageNote = ''image''"
| "type_text AudioNote = ''audio''"

text \<open>
  \<open>handleAddNote\<close> tests the \<open>notes\<close> of the render in which the handler was created
  (\<open>rendered\<close>) and appends with an updater on the state at the time of the call.
  \<open>NoteInput\<close> calls it at once for a text note, and from \<open>FileReader.onloadend\<close> for
  an image or a recording, so the two can differ.
\<close>

definition handleAddNote :: "Note list \<Rightarrow> nat \<Rightarrow> Note \<Rightarrow> AppState \<Rightarrow> AppState" where
  "handleAddNote rendered now n st =
     (if length rendered \<ge> MAX_NOTES then st
      else logHistory now ''NOTE_ADDED''
             (Some (''Type: '' @ type_text (note_type n) @ '', Label: '' @ note_label n))
             (st\<lparr>notes := notes st @ [n], result := None, hasUnsavedChanges := True\<rparr>))"

text \<open>\<open>note?.label\<close> inside a template literal: a missing note prints \<open>undefined\<close>.\<close>

definition label_text :: "Note option \<Rightarrow> string" where
  "label_text n = (case n of None \<Rightarrow> ''undefined'' | Some m \<Rightarrow> note_label m)"


subsection \<open>Conflict ledger\<close>

fun reason_text :: "DismissalReason \<Rightarrow> string" where
  "reason_text NOT_RELEVANT = ''Not Clinically Relevant''"
| "reason_text FALSE_POSITIVE = ''False Positive''"
| "reason_text ADDRESSED = ''Already Addressed''"
| "reason_text DOC_ERROR = ''Documentation Error''"
| "reason_text RESOLVED = ''Resolved''"
| "reason_text OTHER = ''Other''"

definition handleDismissFlag :: "nat \<Rightarrow> DismissalRecord \<Rightarrow> AppState \<Rightarrow> AppState" where
  "handleDismissFlag now rec st =
     logHistory now ''FLAG_DISMISSED'' (Some (''Reason: '' @ reason_text (reason rec)))
       (st\<lparr>dismissedFlags := (dismissedFlags st)(conflictId rec \<mapsto> rec),
           hasUnsavedChanges := True\<rparr>)"

definition handleRestoreFlag :: "nat \<Rightarrow> string \<Rightarrow> AppState \<Rightarrow> AppState" where
  "handleRestoreFlag now i st =
     logHistory now ''FLAG_RESTORED'' None
       (st\<lparr>dismissedFlags := (dismissedFlags st)(i := None), hasUnsavedChanges := True\<rparr>)"

text \<open>
  \<open>ConflictCard.handleResolve\<close>: builds the record and hands it to the \<open>onDismiss\<close>
  callback it was given (in \<open>App\<close>, \<open>handleDismissFlag\<close>). \<open>now\<close> is the card's own
  reading of the clock.
\<close>

definition handleResolve ::
  "(DismissalRecord \<Rightarrow> 'r) \<Rightarrow> Conflict \<Rightarrow> Note list \<Rightarrow> nat \<Rightarrow> string \<Rightarrow> 'r" where
  "handleResolve onDismiss conflict ns now sourceId =
     onDismiss
       \<lparr>conflictId = conflict_id conflict,
        reason = RESOLVED,
        customReason = None,
        dismissal_note =
          Some (''Resolved: User selected source '' @ [CHR 0x22]
                @ label_text (find (\<lambda>n. note_id n = sourceId) ns)
                @ [CHR 0x22] @ '' as correct.''),
        resolutionSourceId = Some sourceId,
        dismissal_timestamp = now\<rparr>"

text \<open>
  The source ids for which an expanded card renders the "mark this source as correct"
  button: the conflict's \<open>source_ids\<close> whose note exists.
\<close>

definition resolve_buttons :: "Conflict \<Rightarrow> Note list \<Rightarrow> string list" where
  "resolve_buttons conflict ns =
     filter (\<lambda>sid. find (\<lambda>n. note_id n = sid) ns \<noteq> None) (source_ids conflict)"

subsection \<open>Undo and redo while editing a source\<close>

text \<open>\<open>historyStack[i]\<close>.\<close>

definition stack_at :: "string option list \<Rightarrow> nat \<Rightarrow> string option" where
  "stack_at xs i = (if i < length xs then xs ! i else None)"

definition handleViewSource :: "string \<Rightarrow> AppState \<Rightarrow> AppState" where
  "handleViewSource i st =
     (let content = or_else (map_option note_content (find (\<lambda>n. note_id n = i) (notes st))) []
      in st\<lparr>viewSourceId := Some i, isEditingSource := False,
             editSourceContent := Some content, historyStack := [Some content],
             historyStep := 0\<rparr>)"

definition setIsEditingSource :: "bool \<Rightarrow> AppState \<Rightarrow> AppState" where
  "setIsEditingSource b st = st\<lparr>isEditingSource := b\<rparr>"

definition setEditSourceContent :: "string \<Rightarrow> AppState \<Rightarrow> AppState" where
  "setEditSourceContent v st = st\<lparr>editSourceContent := Some v\<rparr>"

text \<open>
  The callback of the 800 ms timer of the history effect, which is only armed while
  \<open>isEditingSource\<close> holds.
\<close>

definition historyDebounce :: "AppState \<Rightarrow> AppState" where
  "historyDebounce st =
     (if \<not> isEditingSource st then st
      else if length (historyStack st) > 0
              \<and> editSourceContent st \<noteq> stack_at (historyStack st) (historyStep st)
      then (let newHistory = take (historyStep st + 1) (historyStack st) @ [editSourceContent st]
            in st\<lparr>historyStack := newHistory, historyStep := length newHistory - 1\<rparr>)
      else st)"

definition handleUndo :: "AppState \<Rightarrow> AppState" where
  "handleUndo st =
     (if historyStep st > 0
      then (let prevStep = historyStep st - 1
            in st\<lparr>historyStep := prevStep,
                   editSourceContent := stack_at (historyStack st) prevStep\<rparr>)
      else st)"

text \<open>
  \<open>historyStep < historyStack.length - 1\<close>: on the empty stack the source compares with
  \<open>-1\<close>, the truncated subtraction with \<open>0\<close>; both are false for every step.
\<close>

definition handleRedo :: "AppState \<Rightarrow> AppState" where
  "handleRedo st =
     (if historyStep st < length (historyStack st) - 1
      then (let nextStep = historyStep st + 1
            in st\<lparr>historyStep := nextStep,
                   editSourceContent := stack_at (historyStack st) nextStep\<rparr>)
      else st)"

subsection \<open>Case management\<close>

text \<open>
  The session together with the medium. \<open>now1\<close> stamps the history event, \<open>now2\<close> the
  case; \<open>uuid\<close> is what \<open>crypto.randomUUID()\<close> returns. A failed store call is caught
  and reported by an alert: the history event stays recorded, nothing else changes.
\<close>

definition app_saveCase ::
  "nat \<Rightarrow> string \<Rightarrow> nat \<Rightarrow> bool \<Rightarrow> AppState \<times> localStorage \<Rightarrow> AppState \<times> localStorage" where
  "app_saveCase now1 uuid now2 accepted w =
     (let st = fst w; ls = snd w
      in if pd_id (patientDetails st) = [] then (st, ls)
         else
           (let caseName =
                  ''Case: '' @ pd_id (patientDetails st) @ '' (''
                  @ or_else (pd_encounterDate (patientDetails st)) ''No Date'' @ '')'';
                saveEvent =
                  \<lparr>event_timestamp = now1,
                   action = (if truthy (currentCaseId st) then ''CASE_UPDATED''
                             else ''CASE_CREATED''),
                   details = Some ''Saved by user.''\<rparr>;
                updatedHistory = saveEvent # currentCaseHistory st;
                st1 = st\<lparr>currentCaseHistory := updatedHistory\<rparr>;
                caseData =
                  \<lparr>case_id = or_else (currentCaseId st) uuid,
                   case_name = caseName,
                   case_patientDetails = patientDetails st,
                   case_notes = notes st,
                   case_result = result st,
                   case_dismissedFlags = dismissedFlags st,
                   case_timestamp = now2,
                   case_history = Some updatedHistory\<rparr>
            in if truthy (currentCaseId st)
               then (case updateCase accepted caseData ls of
                       Inl e \<Rightarrow> (st1, ls)
                     | Inr r \<Rightarrow> (st1\<lparr>cases := fst r, hasUnsavedChanges := False\<rparr>, snd r))
               else (case saveCase accepted caseData ls of
                       Inl e \<Rightarrow> (st1, ls)
                     | Inr r \<Rightarrow>
                         (st1\<lparr>currentCaseId := Some (case_id caseData), cases := fst r,
                              hasUnsavedChanges := False\<rparr>, snd r))))"

definition loadCase :: "nat \<Rightarrow> Case \<Rightarrow> AppState \<Rightarrow> AppState" where
  "loadCase now c st =
     logHistory now ''CASE_LOADED'' (Some ''Loaded from storage.'')
       (st\<lparr>patientDetails := case_patientDetails c, notes := case_notes c,
           result := case_result c, dismissedFlags := case_dismissedFlags c,
           currentCaseId := Some (case_id c),
           currentCaseHistory := (case case_history c of None \<Rightarrow> [] | Some h \<Rightarrow> h),
           hasUnsavedChanges := False\<rparr>)"

text \<open>
  \<open>confirmed\<close> is the answer to \<open>window.confirm\<close>. The store's \<open>deleteCase\<close> is awaited
  outside any \<open>try\<close>: when the write is refused the handler stops there.
\<close>

definition app_deleteCase ::
  "nat \<Rightarrow> bool \<Rightarrow> bool \<Rightarrow> string \<Rightarrow> AppState \<times> localStorage \<Rightarrow> AppState \<times> localStorage" where
  "app_deleteCase now confirmed accepted i w =
     (let st = fst w; ls = snd w
      in if \<not> confirmed then (st, ls)
         else (case deleteCase accepted i ls of
                 Inl e \<Rightarrow> (st, ls)
               | Inr r \<Rightarrow>
                   (let st1 = st\<lparr>cases := fst r\<rparr>
                    in if currentCaseId st = Some i
                       then (logHistory now ''STORAGE_DELETED''
                               (Some ''Case deleted from DB but active in session.'')
                               (st1\<lparr>currentCaseId := None, hasUnsavedChanges := True\<rparr>),
                             snd r)
                       else (st1, snd r))))"

definition handlePatientDetailsChange :: "PatientDetails \<Rightarrow> AppState \<Rightarrow> AppState" where
  "handlePatientDetailsChange d st = st\<lparr>patientDetails := d, hasUnsavedChanges := True\<rparr>"



definition handleRunTest_settled :: "AnalysisResult option \<Rightarrow> AppState \<Rightarrow> AppState" where
  "handleRunTest_settled outcome st =
     (case outcome of None \<Rightarrow> st | Some data \<Rightarrow> st\<lparr>result := Some data\<rparr>)"

subsection \<open>History log modal\<close>



subsection \<open>Sequences of recorded actions\<close>





subsection \<open>Auxiliary notions for the statements\<close>

text \<open>The sanitizer's effect on one character.\<close>

definition encode_char :: "char \<Rightarrow> string" where
  "encode_char x =
     (if x = CHR ''&'' then ''&amp;''
      else if x = CHR ''<'' then ''&lt;''
      else if x = CHR ''>'' then ''&gt;''
      else if x = CHR 0x22 then ''&quot;''
      else if x = CHR 0x27 then ''&#039;''
      else [x])"

text \<open>The free-text fields reachable from a case, in the order \<open>sanitizeCase\<close> visits them.\<close>

definition free_text :: "Case \<Rightarrow> string list" where
  "free_text c =
     [case_name c,
      pd_id (case_patientDetails c),
      or_empty (pd_name (case_patientDetails c)),
      or_empty (pd_age (case_patientDetails c)),
      or_empty (pd_location (case_patientDetails c)),
      or_empty (pd_encounterDate (case_patientDetails c))]
     @ concat (map (\<lambda>n. [note_content n, note_label n]) (case_notes c))"





subsection \<open>Sample data\<close>

text \<open>\<open>DEMO_PATIENT\<close> of constants.ts, and small values for the concrete instances below.\<close>

definition DEMO_PATIENT :: PatientDetails where
  "DEMO_PATIENT =
     \<lparr>pd_id = ''TEST-CASE-001'', pd_name = Some ''Alex Rivera'', pd_age = Some ''64M'',
      pd_location = Some ''ICU-4'', pd_encounterDate = Some ''Dec 08 2024''\<rparr>"

definition sample_note :: Note where
  "sample_note =
     \<lparr>note_id = ''n1'', note_type = TextNote, note_content = ''A'',
      note_originalFile = None, note_mimeType = None, note_label = ''ED Triage Note'',
      note_timestamp = 1, note_status = Ready, note_confidence = None\<rparr>"

definition sample_conflict :: Conflict where
  "sample_conflict =
     \<lparr>conflict_id = ''c1'', conflict_description = ''Aspirin dose differs'',
      conflict_severity = HIGH, source_ids = [''n1'', ''n2''], reasoning = ''81 mg vs 325 mg'',
      why_it_matters = ''Bleeding risk'', conflict_confidence = HIGH, excerpts = [],
      resolved_text = None\<rparr>"

definition sample_record :: DismissalRecord where
  "sample_record =
     \<lparr>conflictId = [], reason = OTHER, customReason = None, dismissal_note = None,
      resolutionSourceId = None, dismissal_timestamp = 1\<rparr>"

definition sample_case :: Case where
  "sample_case =
     \<lparr>case_id = ''k1'', case_name = ''Case: TEST-CASE-001 (Dec 08 2024)'',
      case_patientDetails = DEMO_PATIENT, case_notes = [sample_note], case_result = None,
      case_dismissedFlags = Map.empty, case_timestamp = 1, case_history = Some []\<rparr>"

definition sample_session :: AppState where
  "sample_session =
     initialState\<lparr>patientDetails := DEMO_PATIENT, notes := [sample_note],
                  currentCaseId := Some ''k1''\<rparr>"

section \<open>Case store: properties\<close>

lemma loadCases_Parsed: "loadCases (Some (Parsed cs)) = cs"
  by (simp add: loadCases_def)

lemma sanitizeCase_id: "case_id (sanitizeCase c) = case_id c"
  by (simp add: sanitizeCase_def)

lemma findIndex_update:
  "findIndex P xs = Some i \<Longrightarrow> P y \<Longrightarrow> findIndex P (xs[i := y]) = Some i"
proof (induction xs arbitrary: i)
  case Nil
  then show ?case by simp
next
  case (Cons x xs)
  show ?case
  proof (cases "P x")
    case True
    with Cons.prems show ?thesis by simp
  next
    case False
    with Cons.prems obtain j where j: "findIndex P xs = Some j" "i = Suc j"
      by auto
    from Cons.IH [OF j(1) Cons.prems(2)] False j show ?thesis by simp
  qed
qed

text \<open>
  C1. Creating a case and loading the collection again: when the medium accepts the
  write, \<open>saveCase\<close> returns and persists the prior collection with \<open>sanitizeCase c\<close> put
  in front, whatever ids the prior collection holds (the collection always grows by
  one entry, so nothing is deduplicated).
\<close>

theorem saveCase_then_loadCases:
  "\<exists>ls'. saveCase True c ls = Inr (sanitizeCase c # loadCases ls, ls')
     \<and> loadCases ls' = sanitizeCase c # loadCases ls
     \<and> loadCases ls' ! 0 = sanitizeCase c
     \<and> length (loadCases ls') = Suc (length (loadCases ls))"
  by (simp add: saveCase_def setItem_def Let_def loadCases_Parsed)

text \<open>
  C3. Updating twice with the same case: the second call returns and persists the same
  collection as the first.
\<close>

theorem updateCase_idempotent:
  "\<exists>cs ls'. updateCase True c ls = Inr (cs, ls') \<and> updateCase True c ls' = Inr (cs, ls')"
proof (cases "findIndex (\<lambda>x. case_id x = case_id c) (loadCases ls)")
  case None
  then show ?thesis
    by (simp add: updateCase_def setItem_def Let_def loadCases_Parsed sanitizeCase_id)
next
  case (Some i)
  have "findIndex (\<lambda>x. case_id x = case_id c) ((loadCases ls)[i := sanitizeCase c]) = Some i"
    by (rule findIndex_update [OF Some]) (simp add: sanitizeCase_id)
  with Some show ?thesis
    by (simp add: updateCase_def setItem_def Let_def loadCases_Parsed)
qed

section \<open>Sanitizer: properties\<close>

lemma replaceAll_concat:
  "replaceAll c r (concat (map f s)) = concat (map (\<lambda>x. replaceAll c r (f x)) s)"
  by (induction s) (simp_all add: replaceAll_def)

lemma replaceAll_single: "replaceAll c r s = concat (map (\<lambda>x. replaceAll c r [x]) s)"
  by (induction s) (simp_all add: replaceAll_def)

lemma encode_char_chain:
  "replaceAll (CHR 0x27) ''&#039;''
     (replaceAll (CHR 0x22) ''&quot;''
       (replaceAll (CHR ''>'') ''&gt;''
         (replaceAll (CHR ''<'') ''&lt;''
           (replaceAll (CHR ''&'') ''&amp;'' [x])))) = encode_char x"
  by (simp add: replaceAll_def encode_char_def)

text \<open>The five passes together rewrite each character on its own.\<close>

lemma sanitizeInput_concat: "sanitizeInput t = concat (map encode_char t)"
proof (cases "t = []")
  case True
  then show ?thesis by (simp add: sanitizeInput_def)
next
  case False
  have "sanitizeInput t =
      replaceAll (CHR 0x27) ''&#039;''
       (replaceAll (CHR 0x22) ''&quot;''
         (replaceAll (CHR ''>'') ''&gt;''
           (replaceAll (CHR ''<'') ''&lt;''
             (concat (map (\<lambda>x. replaceAll (CHR ''&'') ''&amp;'' [x]) t)))))"
    using False by (simp add: sanitizeInput_def replaceAll_single [of "CHR ''&''" _ t, symmetric])
  also have "\<dots> = concat (map (\<lambda>x. replaceAll (CHR 0x27) ''&#039;''
     (replaceAll (CHR 0x22) ''&quot;''
       (replaceAll (CHR ''>'') ''&gt;''
         (replaceAll (CHR ''<'') ''&lt;''
           (replaceAll (CHR ''&'') ''&amp;'' [x]))))) t)"
    by (simp only: replaceAll_concat)
  also have "\<dots> = concat (map encode_char t)"
    by (simp only: encode_char_chain)
  finally show ?thesis .
qed

lemma encode_char_safe: "x \<notin> special_chars \<Longrightarrow> encode_char x = [x]"
  by (simp add: encode_char_def special_chars_def)

lemma encode_char_special:
  "x \<in> special_chars \<Longrightarrow> CHR ''&'' \<in> set (encode_char x) \<and> 1 < length (encode_char x)"
  by (auto simp add: encode_char_def special_chars_def)

lemma encode_char_length: "1 \<le> length (encode_char x)"
  by (simp add: encode_char_def)

lemma sanitizeInput_length: "length t \<le> length (sanitizeInput t)"
  unfolding sanitizeInput_concat
proof (induction t)
  case Nil
  then show ?case by simp
next
  case (Cons a t)
  then show ?case using encode_char_length [of a] by simp
qed

lemma sanitizeInput_longer:
  "x \<in> set t \<Longrightarrow> x \<in> special_chars \<Longrightarrow> length t < length (sanitizeInput t)"
proof (induction t)
  case Nil
  then show ?case by simp
next
  case (Cons a t)
  show ?case
  proof (cases "x = a")
    case True
    with Cons.prems encode_char_special [of a] sanitizeInput_length [of t]
    show ?thesis by (simp add: sanitizeInput_concat)
  next
    case False
    with Cons have "length t < length (sanitizeInput t)" by simp
    with encode_char_length [of a] show ?thesis by (simp add: sanitizeInput_concat)
  qed
qed

lemma sanitizeInput_safe: "set t \<inter> special_chars = {} \<Longrightarrow> sanitizeInput t = t"
  unfolding sanitizeInput_concat
  by (induction t) (simp_all add: encode_char_safe)

lemma sanitizeInput_amp:
  "x \<in> set t \<Longrightarrow> x \<in> special_chars \<Longrightarrow> CHR ''&'' \<in> set (sanitizeInput t)"
  unfolding sanitizeInput_concat using encode_char_special by auto

lemma amp_special: "CHR ''&'' \<in> special_chars"
  by (simp add: special_chars_def)

lemma sanitizeInput_twice_iff:
  "(sanitizeInput (sanitizeInput t) = sanitizeInput t) = (set t \<inter> special_chars = {})"
proof
  assume eq: "sanitizeInput (sanitizeInput t) = sanitizeInput t"
  show "set t \<inter> special_chars = {}"
  proof (rule ccontr)
    assume "set t \<inter> special_chars \<noteq> {}"
    then obtain x where "x \<in> set t" "x \<in> special_chars" by auto
    then have "CHR ''&'' \<in> set (sanitizeInput t)" by (rule sanitizeInput_amp)
    from sanitizeInput_longer [OF this amp_special] eq show False by simp
  qed
next
  assume "set t \<inter> special_chars = {}"
  then show "sanitizeInput (sanitizeInput t) = sanitizeInput t"
    by (simp add: sanitizeInput_safe)
qed

lemma or_empty_Some: "or_empty (Some s) = s"
  by (simp add: or_empty_def)

lemma sanitizeNote_safe:
  "set (note_content n) \<inter> special_chars = {} \<Longrightarrow> set (note_label n) \<inter> special_chars = {}
   \<Longrightarrow> [note_content (sanitizeNote n), note_label (sanitizeNote n)]
       = [note_content n, note_label n]"
  by (simp add: sanitizeNote_def sanitizeInput_safe)

lemma free_text_notes_safe:
  "\<forall>s\<in>set (concat (map (\<lambda>n. [note_content n, note_label n]) ns)). set s \<inter> special_chars = {}
   \<Longrightarrow> concat (map (\<lambda>n. [note_content n, note_label n]) (map sanitizeNote ns))
       = concat (map (\<lambda>n. [note_content n, note_label n]) ns)"
  by (induction ns) (simp_all add: sanitizeNote_def sanitizeInput_safe)

lemma free_text_safe:
  assumes "\<forall>s\<in>set (free_text c). set s \<inter> special_chars = {}"
  shows "free_text (sanitizeCase c) = free_text c"
proof -
  from assms have notes_safe:
    "\<forall>s\<in>set (concat (map (\<lambda>n. [note_content n, note_label n]) (case_notes c))).
       set s \<inter> special_chars = {}"
    by (simp add: free_text_def)
  from assms have fields:
    "sanitizeInput (case_name c) = case_name c"
    "sanitizeInput (pd_id (case_patientDetails c)) = pd_id (case_patientDetails c)"
    "sanitizeInput (or_empty (pd_name (case_patientDetails c)))
       = or_empty (pd_name (case_patientDetails c))"
    "sanitizeInput (or_empty (pd_age (case_patientDetails c)))
       = or_empty (pd_age (case_patientDetails c))"
    "sanitizeInput (or_empty (pd_location (case_patientDetails c)))
       = or_empty (pd_location (case_patientDetails c))"
    "sanitizeInput (or_empty (pd_encounterDate (case_patientDetails c)))
       = or_empty (pd_encounterDate (case_patientDetails c))"
    by (simp_all add: free_text_def sanitizeInput_safe)
  show ?thesis
    by (simp add: free_text_def sanitizeCase_def fields or_empty_Some
        free_text_notes_safe [OF notes_safe] del: map_map)
qed

text \<open>
  C2 (as amended). Sanitizing a second time changes nothing exactly when the text holds
  none of the five characters \<open>&\<close>, \<open><\<close>, \<open>>\<close>, double quote and single quote; such a
  text is left as it is by \<open>sanitizeInput\<close>, and a case whose free-text fields are all
  of this kind keeps them unchanged through \<open>sanitizeCase\<close>.
\<close>

theorem sanitizeInput_idempotent_iff_safe:
  "(sanitizeInput (sanitizeInput t) = sanitizeInput t) = (set t \<inter> special_chars = {})
   \<and> (set t \<inter> special_chars = {} \<longrightarrow> sanitizeInput t = t)
   \<and> ((\<forall>s\<in>set (free_text c). set s \<inter> special_chars = {})
        \<longrightarrow> free_text (sanitizeCase c) = free_text c)"
  using sanitizeInput_twice_iff [of t] sanitizeInput_safe [of t] free_text_safe [of c]
  by blast

theorem sanitizeInput_idempotent_iff_safe_witness:
  "set ''NPO after midnight'' \<inter> special_chars = {}
   \<and> sanitizeInput (sanitizeInput ''NPO after midnight'') = sanitizeInput ''NPO after midnight''
   \<and> sanitizeInput ''NPO after midnight'' = ''NPO after midnight''
   \<and> list_all (\<lambda>s. set s \<inter> special_chars = {}) (free_text sample_case)
   \<and> free_text (sanitizeCase sample_case) = free_text sample_case"
proof -
  have h1: "set ''NPO after midnight'' \<inter> special_chars = {}"
    by (simp add: special_chars_def)
  have h2: "\<forall>s\<in>set (free_text sample_case). set s \<inter> special_chars = {}"
    by (simp add: free_text_def sample_case_def sample_note_def DEMO_PATIENT_def or_empty_def
        special_chars_def)
  from h2 have h3: "list_all (\<lambda>s. set s \<inter> special_chars = {}) (free_text sample_case)"
    by (simp only: list_all_iff)
  from sanitizeInput_idempotent_iff_safe [of "''NPO after midnight''" sample_case] h1 h2 h3
  show ?thesis by blast
qed

text \<open>
  C2 as stated fails: the output of the sanitizer contains \<open>&\<close>, which a second pass
  encodes again.
\<close>

theorem sanitizeInput_not_idempotent:
  "sanitizeInput ''<'' = ''&lt;''
   \<and> sanitizeInput (sanitizeInput ''<'') = ''&amp;lt;''
   \<and> sanitizeInput (sanitizeInput ''<'') \<noteq> sanitizeInput ''<''"
  by (simp add: sanitizeInput_def replaceAll_def)

section \<open>Conflict ledger: properties\<close>

text \<open>
  C4 (as amended). Marking a source as correct records, under the conflict's id, a
  dismissal with reason \<open>RESOLVED\<close> and the chosen source as \<open>resolutionSourceId\<close>, for
  every source id handed to the handler: the handler does not look at the conflict's
  \<open>source_ids\<close> and has no failure. The card offers the action only for ids among the
  conflict's \<open>source_ids\<close>.
\<close>

theorem handleResolve_records_any_source:
  "(\<exists>r. dismissedFlags
          (handleResolve (\<lambda>r. handleDismissFlag now2 r st) conflict ns now1 sourceId)
          (conflict_id conflict) = Some r
        \<and> conflictId r = conflict_id conflict \<and> reason r = RESOLVED
        \<and> resolutionSourceId r = Some sourceId)
   \<and> set (resolve_buttons conflict ns) \<subseteq> set (source_ids conflict)"
  by (simp add: handleResolve_def handleDismissFlag_def logHistory_def resolve_buttons_def)

theorem handleResolve_records_any_source_witness:
  "(\<exists>r. dismissedFlags
          (handleResolve (\<lambda>r. handleDismissFlag 2 r sample_session) sample_conflict
             (notes sample_session) 1 ''n2'')
          (conflict_id sample_conflict) = Some r
        \<and> conflictId r = conflict_id sample_conflict \<and> reason r = RESOLVED
        \<and> resolutionSourceId r = Some ''n2'')
   \<and> set (resolve_buttons sample_conflict (notes sample_session))
       \<subseteq> set (source_ids sample_conflict)"
  by (rule handleResolve_records_any_source)

text \<open>
  C4 as stated fails: a source id that the conflict does not list is recorded like any
  other, and the mapping changes.
\<close>

theorem handleResolve_unlisted_source_accepted:
  "''n9'' \<notin> set (source_ids sample_conflict)
   \<and> dismissedFlags sample_session ''c1'' = None
   \<and> map_option resolutionSourceId
        (dismissedFlags
          (handleResolve (\<lambda>r. handleDismissFlag 2 r sample_session) sample_conflict
             (notes sample_session) 1 ''n9'') ''c1'') = Some (Some ''n9'')"
  by (simp add: handleResolve_def handleDismissFlag_def logHistory_def sample_session_def
      sample_conflict_def initialState_def)

text \<open>
  C5 (as amended). Dismissing inserts or overwrites the entry keyed by the record's
  \<open>conflictId\<close>, whatever that id is, the empty string included; the handler has no
  failure.
\<close>

theorem handleDismissFlag_upsert:
  "dismissedFlags (handleDismissFlag now rec st) = (dismissedFlags st)(conflictId rec \<mapsto> rec)"
  by (simp add: handleDismissFlag_def logHistory_def)

text \<open>C5 as stated fails: a record with the empty id is stored under the empty key.\<close>

theorem handleDismissFlag_empty_id_accepted:
  "conflictId sample_record = []
   \<and> dismissedFlags initialState [] = None
   \<and> dismissedFlags (handleDismissFlag 1 sample_record initialState) [] = Some sample_record"
  by (simp add: handleDismissFlag_def logHistory_def initialState_def sample_record_def)

text \<open>
  C6. After dismissing a record and restoring its conflict id the key is absent from
  the mapping; restoring a key that is absent leaves the mapping as it was.
\<close>

theorem dismiss_then_restore_absent:
  "dismissedFlags (handleRestoreFlag t2 (conflictId r) (handleDismissFlag t1 r st)) (conflictId r)
     = None
   \<and> (dismissedFlags st i = None
        \<longrightarrow> dismissedFlags (handleRestoreFlag t2 i st) = dismissedFlags st)"
  by (auto simp add: handleDismissFlag_def handleRestoreFlag_def logHistory_def)

theorem dismiss_then_restore_absent_witness:
  "dismissedFlags sample_session ''c1'' = None
   \<and> dismissedFlags (handleRestoreFlag 2 ''c1'' sample_session) = dismissedFlags sample_session
   \<and> dismissedFlags
       (handleRestoreFlag 2 (conflictId sample_record) (handleDismissFlag 1 sample_record sample_session))
       (conflictId sample_record) = None"
proof -
  have h: "dismissedFlags sample_session ''c1'' = None"
    by (simp add: sample_session_def initialState_def)
  from dismiss_then_restore_absent [of 2 sample_record 1 sample_session "''c1''"] h
  show ?thesis by blast
qed

section \<open>Undo and redo: properties\<close>

lemma setEditSourceContent_fields:
  "isEditingSource (setEditSourceContent v st) = isEditingSource st"
  "editSourceContent (setEditSourceContent v st) = Some v"
  "historyStack (setEditSourceContent v st) = historyStack st"
  "historyStep (setEditSourceContent v st) = historyStep st"
  by (simp_all add: setEditSourceContent_def)

text \<open>A snapshot that differs from the one under the cursor is recorded after a cut.\<close>

lemma historyDebounce_record:
  assumes "isEditingSource st" "historyStack st \<noteq> []"
    "editSourceContent st \<noteq> stack_at (historyStack st) (historyStep st)"
  shows "isEditingSource (historyDebounce st)"
    "editSourceContent (historyDebounce st) = editSourceContent st"
    "historyStack (historyDebounce st)
       = take (Suc (historyStep st)) (historyStack st) @ [editSourceContent st]"
    "historyStep (historyDebounce st) = min (Suc (historyStep st)) (length (historyStack st))"
  using assms by (simp_all add: historyDebounce_def Let_def)

lemma historyDebounce_same:
  "editSourceContent st = stack_at (historyStack st) (historyStep st) \<Longrightarrow> historyDebounce st = st"
  by (simp add: historyDebounce_def)

lemma handleUndo_fields:
  assumes "0 < historyStep st"
  shows "isEditingSource (handleUndo st) = isEditingSource st"
    "editSourceContent (handleUndo st) = stack_at (historyStack st) (historyStep st - 1)"
    "historyStack (handleUndo st) = historyStack st"
    "historyStep (handleUndo st) = historyStep st - 1"
  using assms by (simp_all add: handleUndo_def Let_def)

lemma handleUndo_bottom: "historyStep st = 0 \<Longrightarrow> handleUndo st = st"
  by (simp add: handleUndo_def)

lemma handleRedo_fields:
  assumes "Suc (historyStep st) < length (historyStack st)"
  shows "isEditingSource (handleRedo st) = isEditingSource st"
    "editSourceContent (handleRedo st) = stack_at (historyStack st) (Suc (historyStep st))"
    "historyStack (handleRedo st) = historyStack st"
    "historyStep (handleRedo st) = Suc (historyStep st)"
proof -
  from assms have "historyStep st < length (historyStack st) - 1" by arith
  then show "isEditingSource (handleRedo st) = isEditingSource st"
    "editSourceContent (handleRedo st) = stack_at (historyStack st) (Suc (historyStep st))"
    "historyStack (handleRedo st) = historyStack st"
    "historyStep (handleRedo st) = Suc (historyStep st)"
    by (simp_all add: handleRedo_def Let_def)
qed

lemma handleRedo_top:
  assumes "length (historyStack st) \<le> Suc (historyStep st)"
  shows "handleRedo st = st"
proof -
  from assms have "\<not> historyStep st < length (historyStack st) - 1" by arith
  then show ?thesis by (simp add: handleRedo_def)
qed

text \<open>
  C7. Viewing a note whose text is \<open>A\<close> and editing it: after the snapshots \<open>B\<close> and
  \<open>C\<close> have been recorded, undo shows \<open>B\<close> (and the timer then records nothing), a
  second undo shows \<open>A\<close>, a third changes nothing; redo shows \<open>B\<close>; recording \<open>D\<close>
  there cuts the stack to \<open>A, B, D\<close>, so redo has nothing to offer and \<open>C\<close> is gone.
\<close>

theorem edit_history_linear_undo:
  assumes viewed: "map_option note_content (find (\<lambda>n. note_id n = i) (notes st)) = Some ''A''"
  shows
   "(let s0 = setIsEditingSource True (handleViewSource i st);
         s1 = historyDebounce (setEditSourceContent ''B'' s0);
         s2 = historyDebounce (setEditSourceContent ''C'' s1);
         u1 = handleUndo s2;
         u2 = handleUndo u1;
         u3 = handleUndo u2;
         r1 = handleRedo u3;
         d1 = historyDebounce (setEditSourceContent ''D'' r1)
     in historyStack s0 = [Some ''A''] \<and> historyStep s0 = 0
        \<and> historyStack s2 = [Some ''A'', Some ''B'', Some ''C''] \<and> historyStep s2 = 2
        \<and> editSourceContent u1 = Some ''B'' \<and> historyDebounce u1 = u1
        \<and> editSourceContent u2 = Some ''A''
        \<and> u3 = u2 \<and> editSourceContent u3 = Some ''A''
        \<and> editSourceContent r1 = Some ''B'' \<and> historyStep r1 = 1
        \<and> historyStack d1 = [Some ''A'', Some ''B'', Some ''D''] \<and> historyStep d1 = 2
        \<and> handleRedo d1 = d1 \<and> Some ''C'' \<notin> set (historyStack d1))"
proof -
  define s0 where "s0 = setIsEditingSource True (handleViewSource i st)"
  define s1 where "s1 = historyDebounce (setEditSourceContent ''B'' s0)"
  define s2 where "s2 = historyDebounce (setEditSourceContent ''C'' s1)"
  define u1 where "u1 = handleUndo s2"
  define u2 where "u2 = handleUndo u1"
  define u3 where "u3 = handleUndo u2"
  define r1 where "r1 = handleRedo u3"
  define d1 where "d1 = historyDebounce (setEditSourceContent ''D'' r1)"
  have s0: "isEditingSource s0" "historyStack s0 = [Some ''A'']" "historyStep s0 = 0"
    using viewed
    by (auto simp add: s0_def setIsEditingSource_def handleViewSource_def or_else_def Let_def)
  have s1: "isEditingSource s1" "historyStack s1 = [Some ''A'', Some ''B'']" "historyStep s1 = 1"
    unfolding s1_def
    by (subst historyDebounce_record; simp add: setEditSourceContent_fields s0 stack_at_def)+
  have s2: "isEditingSource s2" "historyStack s2 = [Some ''A'', Some ''B'', Some ''C'']"
    "historyStep s2 = 2"
    unfolding s2_def
    by (subst historyDebounce_record; simp add: setEditSourceContent_fields s1 stack_at_def)+
  have u1: "isEditingSource u1" "historyStack u1 = [Some ''A'', Some ''B'', Some ''C'']"
    "historyStep u1 = 1" "editSourceContent u1 = Some ''B''"
    unfolding u1_def by (simp_all add: handleUndo_fields s2 stack_at_def)
  have u1_quiet: "historyDebounce u1 = u1"
    by (rule historyDebounce_same) (simp add: u1 stack_at_def)
  have u2: "isEditingSource u2" "historyStack u2 = [Some ''A'', Some ''B'', Some ''C'']"
    "historyStep u2 = 0" "editSourceContent u2 = Some ''A''"
    unfolding u2_def by (simp_all add: handleUndo_fields u1 stack_at_def)
  have u3: "u3 = u2"
    unfolding u3_def by (rule handleUndo_bottom) (rule u2)
  have r1: "isEditingSource r1" "historyStack r1 = [Some ''A'', Some ''B'', Some ''C'']"
    "historyStep r1 = 1" "editSourceContent r1 = Some ''B''"
    unfolding r1_def u3 by (simp_all add: handleRedo_fields u2 stack_at_def)
  have d1: "historyStack d1 = [Some ''A'', Some ''B'', Some ''D'']" "historyStep d1 = 2"
    unfolding d1_def
    by (subst historyDebounce_record; simp add: setEditSourceContent_fields r1 stack_at_def)+
  have d1_top: "handleRedo d1 = d1"
    by (rule handleRedo_top) (simp add: d1)
  have gone: "Some ''C'' \<notin> set (historyStack d1)"
    by (simp add: d1)
  have all: "historyStack s0 = [Some ''A''] \<and> historyStep s0 = 0
        \<and> historyStack s2 = [Some ''A'', Some ''B'', Some ''C''] \<and> historyStep s2 = 2
        \<and> editSourceContent u1 = Some ''B'' \<and> historyDebounce u1 = u1
        \<and> editSourceContent u2 = Some ''A''
        \<and> u3 = u2 \<and> editSourceContent u3 = Some ''A''
        \<and> editSourceContent r1 = Some ''B'' \<and> historyStep r1 = 1
        \<and> historyStack d1 = [Some ''A'', Some ''B'', Some ''D''] \<and> historyStep d1 = 2
        \<and> handleRedo d1 = d1 \<and> Some ''C'' \<notin> set (historyStack d1)"
    using s0 s2 u1 u1_quiet u2 u3 r1 d1 d1_top gone by simp
  show ?thesis
    unfolding Let_def
    by (rule all [unfolded s0_def s1_def s2_def u1_def u2_def u3_def r1_def d1_def])
qed

theorem edit_history_linear_undo_witness:
  "map_option note_content (find (\<lambda>n. note_id n = ''n1'') (notes sample_session)) = Some ''A''
   \<and> (let s0 = setIsEditingSource True (handleViewSource ''n1'' sample_session);
          s1 = historyDebounce (setEditSourceContent ''B'' s0);
          s2 = historyDebounce (setEditSourceContent ''C'' s1);
          u1 = handleUndo s2;
          u2 = handleUndo u1;
          u3 = handleUndo u2;
          r1 = handleRedo u3;
          d1 = historyDebounce (setEditSourceContent ''D'' r1)
      in historyStack s0 = [Some ''A''] \<and> historyStep s0 = 0
         \<and> historyStack s2 = [Some ''A'', Some ''B'', Some ''C''] \<and> historyStep s2 = 2
         \<and> editSourceContent u1 = Some ''B'' \<and> historyDebounce u1 = u1
         \<and> editSourceContent u2 = Some ''A''
         \<and> u3 = u2 \<and> editSourceContent u3 = Some ''A''
         \<and> editSourceContent r1 = Some ''B'' \<and> historyStep r1 = 1
         \<and> historyStack d1 = [Some ''A'', Some ''B'', Some ''D''] \<and> historyStep d1 = 2
         \<and> handleRedo d1 = d1 \<and> Some ''C'' \<notin> set (historyStack d1))"
proof -
  have h: "map_option note_content (find (\<lambda>n. note_id n = ''n1'') (notes sample_session))
             = Some ''A''"
    by (simp add: sample_session_def sample_note_def)
  show ?thesis
    by (rule conjI [OF h edit_history_linear_undo [OF h]])
qed

section \<open>Notes: properties\<close>

text \<open>What the test of \<open>handleAddNote\<close> does guarantee.\<close>

lemma handleAddNote_guard:
  "MAX_NOTES \<le> length rendered \<Longrightarrow> handleAddNote rendered now n st = st"
  by (simp add: handleAddNote_def)

lemma handleAddNote_same_render:
  "length (notes st) \<le> MAX_NOTES \<Longrightarrow> length (notes (handleAddNote (notes st) now n st)) \<le> MAX_NOTES"
  by (simp add: handleAddNote_def logHistory_def MAX_NOTES_def)

text \<open>
  C10. \<open>handleAddNote\<close> is meant to keep the list at \<open>MAX_NOTES\<close> = 10 notes: a handler
  whose render showed ten or more notes changes nothing, and a handler called in the
  render it belongs to never leaves more than ten (the two lemmas above). The cap is
  lost when handlers of one render are called after the list has grown: two media
  submits pending in a render that showed nine notes both pass the test, and the
  list ends with eleven notes. The handler of the following render would have
  stopped the second note.
\<close>

theorem handleAddNote_stale_render_exceeds_cap:
  "(let st9 = sample_session\<lparr>notes := replicate 9 sample_note\<rparr>;
        st10 = handleAddNote (notes st9) 5 sample_note st9;
        st11 = handleAddNote (notes st9) 6 sample_note st10
    in length (notes st9) = 9 \<and> length (notes st10) = 10 \<and> length (notes st11) = 11
       \<and> MAX_NOTES = 10 \<and> \<not> length (notes st11) \<le> MAX_NOTES
       \<and> handleAddNote (notes st10) 6 sample_note st10 = st10)"
  by (simp add: Let_def handleAddNote_def logHistory_def MAX_NOTES_def)

section \<open>Audit log: properties\<close>


























section \<open>Case session: properties\<close>

lemma app_saveCase_no_patient_id:
  "pd_id (patientDetails (fst w)) = [] \<Longrightarrow> app_saveCase now1 uuid now2 accepted w = w"
  by (simp add: app_saveCase_def)

text \<open>
  C9 (as amended). Deleting the stored case the session is bound to (confirmed, write
  accepted) removes every stored entry with that id, unbinds the session, marks it
  unsaved and keeps patient details, notes, result and dismissed flags. What the
  following save does depends on the patient id: when it is empty the save stops at
  its alert and nothing is created; when it is present (write accepted) a new record
  is put in front of the stored collection under the id the generator returned, and
  the session is bound to that id. No older entry carries the deleted id, and none at
  all does when the generated id differs from it.
\<close>

theorem delete_bound_case_then_save:
  assumes bound: "currentCaseId st = Some i"
  shows "(let w1 = app_deleteCase now True True i (st, ls);
              w2 = app_saveCase now1 uuid now2 True w1
          in currentCaseId (fst w1) = None
           \<and> hasUnsavedChanges (fst w1)
           \<and> loadCases (snd w1) = filter (\<lambda>c. case_id c \<noteq> i) (loadCases ls)
           \<and> patientDetails (fst w1) = patientDetails st \<and> notes (fst w1) = notes st
           \<and> result (fst w1) = result st \<and> dismissedFlags (fst w1) = dismissedFlags st
           \<and> (pd_id (patientDetails st) = [] \<longrightarrow> w2 = w1)
           \<and> (pd_id (patientDetails st) \<noteq> [] \<longrightarrow>
                currentCaseId (fst w2) = Some uuid
              \<and> \<not> hasUnsavedChanges (fst w2)
              \<and> length (loadCases (snd w2)) = Suc (length (loadCases (snd w1)))
              \<and> case_id (loadCases (snd w2) ! 0) = uuid
              \<and> tl (loadCases (snd w2)) = loadCases (snd w1)
              \<and> cases (fst w2) = loadCases (snd w2)
              \<and> filter (\<lambda>c. case_id c = i) (tl (loadCases (snd w2))) = []
              \<and> (uuid \<noteq> i \<longrightarrow> filter (\<lambda>c. case_id c = i) (loadCases (snd w2)) = [])))"
proof -
  define w1 where "w1 = app_deleteCase now True True i (st, ls)"
  define w2 where "w2 = app_saveCase now1 uuid now2 True w1"
  have w1: "currentCaseId (fst w1) = None" "hasUnsavedChanges (fst w1)"
    "loadCases (snd w1) = filter (\<lambda>c. case_id c \<noteq> i) (loadCases ls)"
    "patientDetails (fst w1) = patientDetails st" "notes (fst w1) = notes st"
    "result (fst w1) = result st" "dismissedFlags (fst w1) = dismissedFlags st"
    using bound
    by (simp_all add: w1_def app_deleteCase_def deleteCase_def setItem_def Let_def
        logHistory_def loadCases_Parsed)
  have empty: "pd_id (patientDetails st) = [] \<longrightarrow> w2 = w1"
    unfolding w2_def using w1(4) by (simp add: app_saveCase_no_patient_id)
  have saved: "pd_id (patientDetails st) \<noteq> [] \<longrightarrow>
                currentCaseId (fst w2) = Some uuid
              \<and> \<not> hasUnsavedChanges (fst w2)
              \<and> length (loadCases (snd w2)) = Suc (length (loadCases (snd w1)))
              \<and> case_id (loadCases (snd w2) ! 0) = uuid
              \<and> tl (loadCases (snd w2)) = loadCases (snd w1)
              \<and> cases (fst w2) = loadCases (snd w2)
              \<and> filter (\<lambda>c. case_id c = i) (tl (loadCases (snd w2))) = []
              \<and> (uuid \<noteq> i \<longrightarrow> filter (\<lambda>c. case_id c = i) (loadCases (snd w2)) = [])"
  proof
    assume pid: "pd_id (patientDetails st) \<noteq> []"
    then have pid1: "pd_id (patientDetails (fst w1)) \<noteq> []" using w1 by simp
    have w2: "currentCaseId (fst w2) = Some uuid" "\<not> hasUnsavedChanges (fst w2)"
      "length (loadCases (snd w2)) = Suc (length (loadCases (snd w1)))"
      "case_id (loadCases (snd w2) ! 0) = uuid"
      "tl (loadCases (snd w2)) = loadCases (snd w1)"
      "cases (fst w2) = loadCases (snd w2)"
      using pid1 w1(1)
      by (simp_all add: w2_def app_saveCase_def saveCase_def setItem_def Let_def truthy_def
          or_else_def loadCases_Parsed sanitizeCase_def)
    have old_gone: "filter (\<lambda>c. case_id c = i) (tl (loadCases (snd w2))) = []"
      using w2(5) w1(3) by (simp add: filter_empty_conv)
    have gone: "uuid \<noteq> i \<longrightarrow> filter (\<lambda>c. case_id c = i) (loadCases (snd w2)) = []"
    proof
      assume ne: "uuid \<noteq> i"
      have "loadCases (snd w2) = (loadCases (snd w2) ! 0) # tl (loadCases (snd w2))"
        using w2(3) by (cases "loadCases (snd w2)") simp_all
      then have "filter (\<lambda>c. case_id c = i) (loadCases (snd w2))
          = filter (\<lambda>c. case_id c = i) ((loadCases (snd w2) ! 0) # tl (loadCases (snd w2)))"
        by simp
      also have "\<dots> = []" using ne w2(4) old_gone by simp
      finally show "filter (\<lambda>c. case_id c = i) (loadCases (snd w2)) = []" .
    qed
    show "currentCaseId (fst w2) = Some uuid
              \<and> \<not> hasUnsavedChanges (fst w2)
              \<and> length (loadCases (snd w2)) = Suc (length (loadCases (snd w1)))
              \<and> case_id (loadCases (snd w2) ! 0) = uuid
              \<and> tl (loadCases (snd w2)) = loadCases (snd w1)
              \<and> cases (fst w2) = loadCases (snd w2)
              \<and> filter (\<lambda>c. case_id c = i) (tl (loadCases (snd w2))) = []
              \<and> (uuid \<noteq> i \<longrightarrow> filter (\<lambda>c. case_id c = i) (loadCases (snd w2)) = [])"
      using w2 old_gone gone by simp
  qed
  have all: "currentCaseId (fst w1) = None
           \<and> hasUnsavedChanges (fst w1)
           \<and> loadCases (snd w1) = filter (\<lambda>c. case_id c \<noteq> i) (loadCases ls)
           \<and> patientDetails (fst w1) = patientDetails st \<and> notes (fst w1) = notes st
           \<and> result (fst w1) = result st \<and> dismissedFlags (fst w1) = dismissedFlags st
           \<and> (pd_id (patientDetails st) = [] \<longrightarrow> w2 = w1)
           \<and> (pd_id (patientDetails st) \<noteq> [] \<longrightarrow>
                currentCaseId (fst w2) = Some uuid
              \<and> \<not> hasUnsavedChanges (fst w2)
              \<and> length (loadCases (snd w2)) = Suc (length (loadCases (snd w1)))
              \<and> case_id (loadCases (snd w2) ! 0) = uuid
              \<and> tl (loadCases (snd w2)) = loadCases (snd w1)
              \<and> cases (fst w2) = loadCases (snd w2)
              \<and> filter (\<lambda>c. case_id c = i) (tl (loadCases (snd w2))) = []
              \<and> (uuid \<noteq> i \<longrightarrow> filter (\<lambda>c. case_id c = i) (loadCases (snd w2)) = []))"
    using w1 empty saved by blast
  show ?thesis
    unfolding Let_def by (rule all [unfolded w2_def w1_def])
qed

theorem delete_bound_case_then_save_witness:
  "currentCaseId sample_session = Some ''k1''
   \<and> pd_id (patientDetails sample_session) \<noteq> []
   \<and> ''k2'' \<noteq> ''k1''
   \<and> (let w1 = app_deleteCase 7 True True ''k1'' (sample_session, Some (Parsed [sample_case]));
          w2 = app_saveCase 8 ''k2'' 9 True w1
      in currentCaseId (fst w1) = None
       \<and> loadCases (snd w1) = []
       \<and> currentCaseId (fst w2) = Some ''k2''
       \<and> length (loadCases (snd w2)) = 1
       \<and> case_id (loadCases (snd w2) ! 0) = ''k2''
       \<and> filter (\<lambda>c. case_id c = ''k1'') (loadCases (snd w2)) = [])"
proof -
  have h1: "currentCaseId sample_session = Some ''k1''"
    by (simp add: sample_session_def)
  have h2: "pd_id (patientDetails sample_session) \<noteq> []"
    by (simp add: sample_session_def DEMO_PATIENT_def)
  have h3: "''k2'' \<noteq> ''k1''" by simp
  have h4: "filter (\<lambda>c. case_id c \<noteq> ''k1'') (loadCases (Some (Parsed [sample_case]))) = []"
    by (simp add: loadCases_Parsed sample_case_def)
  from delete_bound_case_then_save
         [OF h1, of 7 "Some (Parsed [sample_case])" 8 "''k2''" 9] h1 h2 h3 h4
  show ?thesis
    unfolding Let_def by simp
qed

text \<open>
  C9 as stated fails: a session that has loaded a case and cleared the patient id is
  still bound; after the stored case is deleted the save creates no record.
\<close>

theorem delete_bound_case_empty_patient_id_saves_nothing:
  "(let st0 = handlePatientDetailsChange (DEMO_PATIENT\<lparr>pd_id := []\<rparr>)
                (loadCase 3 sample_case initialState);
        w1 = app_deleteCase 7 True True ''k1'' (st0, Some (Parsed [sample_case]));
        w2 = app_saveCase 8 ''k2'' 9 True w1
    in currentCaseId st0 = Some ''k1''
     \<and> pd_id (patientDetails st0) = []
     \<and> map case_id (loadCases (Some (Parsed [sample_case]))) = [''k1'']
     \<and> currentCaseId (fst w1) = None
     \<and> loadCases (snd w1) = []
     \<and> w2 = w1
     \<and> currentCaseId (fst w2) = None
     \<and> loadCases (snd w2) = [])"
proof -
  define st0 where "st0 = handlePatientDetailsChange (DEMO_PATIENT\<lparr>pd_id := []\<rparr>)
                (loadCase 3 sample_case initialState)"
  define w1 where "w1 = app_deleteCase 7 True True ''k1'' (st0, Some (Parsed [sample_case]))"
  define w2 where "w2 = app_saveCase 8 ''k2'' 9 True w1"
  have st0: "currentCaseId st0 = Some ''k1''" "pd_id (patientDetails st0) = []"
    by (simp_all add: st0_def handlePatientDetailsChange_def loadCase_def logHistory_def
        sample_case_def)
  have stored: "map case_id (loadCases (Some (Parsed [sample_case]))) = [''k1'']"
    by (simp add: loadCases_Parsed sample_case_def)
  have w1: "currentCaseId (fst w1) = None" "loadCases (snd w1) = []"
    "pd_id (patientDetails (fst w1)) = []"
    using st0
    by (simp_all add: w1_def app_deleteCase_def deleteCase_def setItem_def Let_def
        logHistory_def loadCases_Parsed sample_case_def)
  have w2: "w2 = w1"
    unfolding w2_def by (rule app_saveCase_no_patient_id) (rule w1(3))
  have all: "currentCaseId st0 = Some ''k1''
     \<and> pd_id (patientDetails st0) = []
     \<and> map case_id (loadCases (Some (Parsed [sample_case]))) = [''k1'']
     \<and> currentCaseId (fst w1) = None
     \<and> loadCases (snd w1) = []
     \<and> w2 = w1
     \<and> currentCaseId (fst w2) = None
     \<and> loadCases (snd w2) = []"
    using st0 stored w1 w2 by simp
  show ?thesis
    unfolding Let_def by (rule all [unfolded w2_def w1_def st0_def])
qed

end
